theory Spec2Isabelle
  imports Complex_Main
begin

section \<open>Errors and values\<close>

text \<open>
  The exceptions the client can raise, as values. \<open>AssertionError\<close> is what the
  credential check raises, \<open>TypeError\<close> and \<open>AttributeError\<close> come from the Python
  object model, \<open>ValueError\<close> and \<open>KeyError\<close> from the standard library and pandas.
  \<open>TransportError\<close> is whatever httpx raises (connection failure, or a body that is not
  JSON); the client catches none of them. \<open>Unmodelled\<close> stands for the outcome of a
  library call on an argument outside the fragment modelled below.
\<close>

datatype error =
    AssertionError
  | TypeError
  | AttributeError
  | ValueError
  | KeyError
  | TransportError
  | Unmodelled

text \<open>
  A parsed JSON document, as Python holds it: \<open>None\<close>, \<open>bool\<close>, a number, \<open>str\<close>,
  \<open>list\<close>, and \<open>dict\<close> (insertion-ordered, hence an association list; a dict has no
  duplicate keys). Numbers are opaque to the client.
\<close>

datatype json =
    JNull
  | JBool bool
  | JNum real
  | JStr string
  | JArr "json list"
  | JObj "(string \<times> json) list"

type_synonym dict = "(string \<times> json) list"

section \<open>Batching (base.py, series.py)\<close>

text \<open>
  \<^verbatim>\<open>
  def yield_chunks(iterator, n):
      iterator = iter(iterator)
      for edge in iterator:
          boundary = itertools.islice(iterator, 0, n - 1)
          yield list(itertools.chain([edge], boundary))
  \<close>
  The iterator is the list of items not yet consumed. Each round takes one item (the
  loop variable) and up to \<open>n - 1\<close> more; an exhausted iterator ends the loop, so the
  empty input yields no chunk. \<open>islice\<close> raises \<open>ValueError\<close> on a negative stop.
  The generator is drained by the caller's list comprehension, so its result is the list of
  chunks, or the error.
\<close>

function yield_chunks :: "'a list \<Rightarrow> int \<Rightarrow> error + 'a list list" where
  "yield_chunks [] n = Inr []"
| "yield_chunks (edge # iterator) n =
     (if n - 1 < 0 then Inl ValueError
      else (case yield_chunks (drop (nat (n - 1)) iterator) n of
              Inl e \<Rightarrow> Inl e
            | Inr chunks \<Rightarrow> Inr ((edge # take (nat (n - 1)) iterator) # chunks)))"
  by pat_completeness auto
termination
  by (relation "measure (\<lambda>(xs, n). length xs)") auto

text \<open>\<open>sep.join(chunk)\<close> of Python's \<open>str\<close>.\<close>

fun join :: "string \<Rightarrow> string list \<Rightarrow> string" where
  "join sep [] = []"
| "join sep [x] = x"
| "join sep (x # y # ys) = x @ sep @ join sep (y # ys)"

text \<open>
  \<^verbatim>\<open>
  [";".join(chunk) for chunk in yield_chunks(series_ids, 100)]
  \<close>
  the value \<open>Series.__post_init__\<close> stores.
\<close>

definition batches :: "string list \<Rightarrow> error + string list" where
  "batches series_ids =
     (case yield_chunks series_ids 100 of
        Inl e \<Rightarrow> Inl e
      | Inr chunks \<Rightarrow> Inr (map (join '';'') chunks))"

text \<open>
  The inverse the specification speaks of: \<open>s.split(c)\<close> of Python's \<open>str\<close> with a
  one-character separator. It never returns the empty list: \<open>"".split(";") == [""]\<close>.
\<close>

fun split_sep :: "char \<Rightarrow> string \<Rightarrow> string list" where
  "split_sep c [] = [[]]"
| "split_sep c (x # xs) =
     (if x = c then [] # split_sep c xs
      else (x # hd (split_sep c xs)) # tl (split_sep c xs))"

definition unbatch :: "string list \<Rightarrow> string list" where
  "unbatch bs = concat (map (split_sep CHR '';'') bs)"

section \<open>Request Base (base.py)\<close>

text \<open>
  Python dictionaries keep insertion order; storing under an existing key keeps the key's
  position. \<open>{**a, **b}\<close> stores every item of \<open>a\<close>, then every item of \<open>b\<close>,
  into a fresh dictionary. \<open>d.get(k)\<close> is \<open>map_of d k\<close>.
\<close>

fun dict_set :: "string \<Rightarrow> 'v \<Rightarrow> (string \<times> 'v) list \<Rightarrow> (string \<times> 'v) list" where
  "dict_set k v [] = [(k, v)]"
| "dict_set k v ((k', v') # d) =
     (if k' = k then (k, v) # d else (k', v') # dict_set k v d)"

definition dict_merge :: "dict \<Rightarrow> dict \<Rightarrow> dict" where
  "dict_merge a b = fold (\<lambda>(k, v) d. dict_set k v d) (a @ b) []"

datatype verb = GET | POST

record request =
  verb :: verb
  target :: string
  query_params :: dict
  body :: "dict option"

text \<open>
  The remote service is outside the program: it is a parameter, a function from the
  requests sent so far and the current request to the outcome of
  \<open>response.json()\<close>, which is a parsed document or a transport failure. The log of
  requests is the only state the verbs touch.
\<close>

type_synonym server = "request list \<Rightarrow> request \<Rightarrow> error + json"

text \<open>
  The instance attributes. \<open>series_ids\<close> is \<open>None\<close> while the attribute has not been
  assigned; reading it then raises \<open>AttributeError\<close>.
\<close>

record query =
  apikey :: string
  params :: dict
  url :: string
  series_ids :: "string list option"

definition ROOT :: string where
  "ROOT = ''https://api.eia.gov''"

definition endpoint :: string where
  "endpoint = ''series''"

text \<open>
  \<open>urljoin(ROOT, endpoint)\<close> for a root without a path and a relative endpoint, which is
  the only use the client makes of it.
\<close>

definition urljoin :: "string \<Rightarrow> string \<Rightarrow> string" where
  "urljoin base path = base @ ''/'' @ path"

text \<open>Truthiness of an optional string, and Python's \<open>a or b\<close> on such values.\<close>

fun truthy :: "string option \<Rightarrow> bool" where
  "truthy None = False"
| "truthy (Some k) = (k \<noteq> [])"

definition py_or :: "string option \<Rightarrow> string option \<Rightarrow> string option" where
  "py_or a b = (if truthy a then a else b)"

text \<open>
  \<^verbatim>\<open>
  def _configure(self, apikey):
      self.apikey = apikey or settings.APIKEY
      assert self.apikey, "Missing required apikey."
      self._params = {"api_key": self.apikey, "out": "json"}
      endpoint = self.endpoint if self.endpoint.endswith("/") else f"{self.endpoint}/"
      self.url = urljoin(self.ROOT, endpoint)
  \<close>
  \<open>settings.APIKEY\<close> is the process-wide configuration value, a string or \<open>None\<close>; the
  module that holds it is not part of the sources, so it is a parameter. A failed
  assertion leaves \<open>__init__\<close> by exception, so no instance is returned.
  (The model is the interpreter's default mode, in which \<open>assert\<close> statements run.)
\<close>

definition configure :: "string option \<Rightarrow> string option \<Rightarrow> error + query" where
  "configure settings_APIKEY key =
     (case py_or key settings_APIKEY of
        None \<Rightarrow> Inl AssertionError
      | Some k \<Rightarrow>
          if \<not> truthy (Some k) then Inl AssertionError
          else Inr \<lparr> apikey = k,
                     params = [(''api_key'', JStr k), (''out'', JStr ''json'')],
                     url = urljoin ROOT
                             (if endpoint \<noteq> [] \<and> last endpoint = CHR ''/'' then endpoint
                              else endpoint @ ''/''),
                     series_ids = None \<rparr>)"

text \<open>
  \<^verbatim>\<open>
  def __init__(self, apikey: str = None):
      self._configure(apikey)
  \<close>
\<close>

definition init :: "string option \<Rightarrow> string option \<Rightarrow> error + query" where
  "init settings_APIKEY key = configure settings_APIKEY key"

text \<open>
  The call \<open>Series(*args)\<close> with positional string arguments. \<open>Series\<close> defines no
  \<open>__init__\<close> of its own and is no dataclass, so the call binds its arguments to
  \<open>BaseQuery.__init__(self, apikey=None)\<close>: one positional argument is the credential, more
  than one is a \<open>TypeError\<close>. Nothing in the call runs \<open>__post_init__\<close>.
\<close>

fun Series :: "string option \<Rightarrow> string list \<Rightarrow> error + query" where
  "Series settings_APIKEY [] = init settings_APIKEY None"
| "Series settings_APIKEY [a] = init settings_APIKEY (Some a)"
| "Series settings_APIKEY (a # b # rest) = Inl TypeError"

text \<open>
  \<^verbatim>\<open>
  async def _get(self, data: dict = {}) -> dict:
      params = {**self._params, **data}
      async with httpx.AsyncClient() as client:
          response = await client.get(self.url, params=params)
      return response.json()

  async def _post(self, data: dict = {}) -> dict:
      async with httpx.AsyncClient() as client:
          response = await client.post(self.url, params=self._params, data=data)
      return response.json()
  \<close>
  Each verb returns the outcome, the instance as the call leaves it, and the log with the
  request appended.
\<close>

definition get :: "server \<Rightarrow> query \<Rightarrow> dict \<Rightarrow> request list
    \<Rightarrow> (error + json) \<times> query \<times> request list" where
  "get srv self data sent =
     (let rq = \<lparr> verb = GET, target = url self,
                  query_params = dict_merge (params self) data, body = None \<rparr>
      in (srv sent rq, self, sent @ [rq]))"

definition post :: "server \<Rightarrow> query \<Rightarrow> dict \<Rightarrow> request list
    \<Rightarrow> (error + json) \<times> query \<times> request list" where
  "post srv self data sent =
     (let rq = \<lparr> verb = POST, target = url self,
                  query_params = params self, body = Some data \<rparr>
      in (srv sent rq, self, sent @ [rq]))"

section \<open>Series Query (series.py)\<close>

text \<open>
  \<^verbatim>\<open>
  def __post_init__(self, *series_ids: str):
      self.series_ids = [";".join(chunk) for chunk in yield_chunks(series_ids, 100)]
  \<close>
\<close>

definition post_init :: "query \<Rightarrow> string list \<Rightarrow> error + query" where
  "post_init self ids =
     (case batches ids of
        Inl e \<Rightarrow> Inl e
      | Inr bs \<Rightarrow> Inr (self\<lparr>series_ids := Some bs\<rparr>))"

text \<open>
  Iterating a value with \<open>for\<close>: a list gives its items, a string its characters, a
  dictionary its keys; \<open>None\<close>, booleans and numbers are not iterable.
\<close>

fun iterate :: "json \<Rightarrow> error + json list" where
  "iterate (JArr xs) = Inr xs"
| "iterate (JStr s) = Inr (map (\<lambda>c. JStr [c]) s)"
| "iterate (JObj d) = Inr (map (\<lambda>(k, v). JStr k) d)"
| "iterate JNull = Inl TypeError"
| "iterate (JBool b) = Inl TypeError"
| "iterate (JNum x) = Inl TypeError"

text \<open>
  \<open>for series in group.get("series", [])\<close>: the items the inner loop of \<open>parse\<close>
  appends for one response. A response that is no dictionary has no \<open>get\<close>.
\<close>

fun group_series :: "json \<Rightarrow> error + json list" where
  "group_series (JObj g) =
     (case map_of g ''series'' of None \<Rightarrow> Inr [] | Some v \<Rightarrow> iterate v)"
| "group_series other = Inl AttributeError"

text \<open>
  \<^verbatim>\<open>
  async def _get_data(self):
      for series_ids in self.series_ids:
          response = await self._post(data={"series_id": series_ids})
          yield response

  async def parse(self) -> List[dict]:
      data_generator = self._get_data()
      output = []
      async for group in data_generator:
          for series in group.get("series", []):
              output.append(series)
      return output
  \<close>
  The generator and the loop that drains it run in lockstep: one request, then the
  flattening of its response, then the next request. \<open>parse_loop\<close> is the loop over the
  batches still to send, with the output so far; any error ends it.
\<close>

fun parse_loop :: "server \<Rightarrow> query \<Rightarrow> string list \<Rightarrow> json list \<Rightarrow> request list
    \<Rightarrow> (error + json list) \<times> query \<times> request list" where
  "parse_loop srv self [] output sent = (Inr output, self, sent)"
| "parse_loop srv self (b # bs) output sent =
     (case post srv self [(''series_id'', JStr b)] sent of
        (Inl e, self', sent') \<Rightarrow> (Inl e, self', sent')
      | (Inr response, self', sent') \<Rightarrow>
          (case group_series response of
             Inl e \<Rightarrow> (Inl e, self', sent')
           | Inr ss \<Rightarrow> parse_loop srv self' bs (output @ ss) sent'))"

definition parse :: "server \<Rightarrow> query \<Rightarrow> request list
    \<Rightarrow> (error + json list) \<times> query \<times> request list" where
  "parse srv self sent =
     (case series_ids self of
        None \<Rightarrow> (Inl AttributeError, self, sent)
      | Some bs \<Rightarrow> parse_loop srv self bs [] sent)"

text \<open>
  \<^verbatim>\<open>
  def to_dict(self) -> List[dict]:
      return asyncio.run(self.parse())
  \<close>
\<close>

definition to_dict :: "server \<Rightarrow> query \<Rightarrow> request list
    \<Rightarrow> (error + json list) \<times> query \<times> request list" where
  "to_dict srv self sent = parse srv self sent"

section \<open>Tables (the pandas operations the client calls)\<close>

text \<open>
  pandas is a library, not part of the program. The definitions below give the documented
  behaviour of the three operations \<open>to_dataframe\<close> calls, on the shapes of argument the
  EIA responses have; a shape outside that fragment yields \<open>Unmodelled\<close>, about which
  nothing is claimed. A frame is its row index and its columns in order, each column a
  name and one cell per row.

  A cell is described by what pandas was given for it, not by the dtype pandas chooses for
  the column: a text is kept as it is; a number is a number, whose stored value is pandas's
  affair (an integer becomes a float in a column with missing cells), and likewise a
  boolean; a list or dictionary held in a cell is an object whose content is not described;
  \<open>None\<close> is a missing cell, like the cell of a row that has no value for the column.
\<close>

datatype cell = Missing | Text string | Number | Flag | Nested

fun stored :: "json \<Rightarrow> cell" where
  "stored JNull = Missing"
| "stored (JStr s) = Text s"
| "stored (JNum x) = Number"
| "stored (JBool b) = Flag"
| "stored (JArr xs) = Nested"
| "stored (JObj d) = Nested"

record frame =
  index :: "nat list"
  columns :: "(string \<times> cell list) list"

fun rows_of :: "json \<Rightarrow> json list list option" where
  "rows_of (JArr rows) =
     (if list_all (\<lambda>r. case r of JArr items \<Rightarrow> True | _ \<Rightarrow> False) rows
      then Some (map (\<lambda>r. case r of JArr items \<Rightarrow> items | _ \<Rightarrow> []) rows)
      else None)"
| "rows_of other = None"

definition cell_at :: "json list \<Rightarrow> nat \<Rightarrow> cell" where
  "cell_at row i = (if i < length row then stored (row ! i) else Missing)"

text \<open>
  \<open>pd.DataFrame(data, columns=["period", "value"])\<close> for a list of lists: the empty list
  gives the empty frame with the two columns; otherwise the longest row must have exactly
  two items (\<open>ValueError\<close> if not) and shorter rows are padded with missing cells. The
  index is \<open>0 .. len(data) - 1\<close>.
\<close>

definition DataFrame :: "json \<Rightarrow> error + frame" where
  "DataFrame data =
     (case rows_of data of
        None \<Rightarrow> Inl Unmodelled
      | Some rows \<Rightarrow>
          if rows \<noteq> [] \<and> foldr max (map length rows) 0 \<noteq> 2 then Inl ValueError
          else Inr \<lparr> index = [0..<length rows],
                     columns = [(''period'', map (\<lambda>r. cell_at r 0) rows),
                                (''value'', map (\<lambda>r. cell_at r 1) rows)] \<rparr>)"


text \<open>
  \<open>df[k] = v\<close>. A scalar \<open>v\<close> is broadcast to every row; an existing column of that
  name is replaced where it stands, a new one is appended. A list whose length differs from
  the number of rows of a frame that has rows is a \<open>ValueError\<close>; the other uses of a
  list or a dictionary are not modelled.
\<close>

fun setitem :: "string \<Rightarrow> json \<Rightarrow> frame \<Rightarrow> error + frame" where
  "setitem k (JArr xs) df =
     (if 0 < length (index df) \<and> length xs \<noteq> length (index df) then Inl ValueError
      else Inl Unmodelled)"
| "setitem k (JObj d) df = Inl Unmodelled"
| "setitem k v df =
     Inr (df\<lparr>columns := dict_set k (replicate (length (index df)) (stored v)) (columns df)\<rparr>)"

text \<open>
  \<open>df.assign(**kwargs)\<close>: the keyword arguments are stored in order
  (\<open>assign_items\<close>). The method is \<open>assign(self, **kwargs)\<close>, so a keyword named
  \<open>self\<close> collides with the receiver and the call raises \<open>TypeError\<close>.
\<close>

fun assign_items :: "dict \<Rightarrow> frame \<Rightarrow> error + frame" where
  "assign_items [] df = Inr df"
| "assign_items ((k, v) # kwargs) df =
     (case setitem k v df of Inl e \<Rightarrow> Inl e | Inr df' \<Rightarrow> assign_items kwargs df')"

definition assign :: "dict \<Rightarrow> frame \<Rightarrow> error + frame" where
  "assign kwargs df =
     (if ''self'' \<in> set (map fst kwargs) then Inl TypeError else assign_items kwargs df)"

definition column :: "frame \<Rightarrow> string \<Rightarrow> cell list" where
  "column df c =
     (case map_of (columns df) c of
        Some cells \<Rightarrow> cells
      | None \<Rightarrow> replicate (length (index df)) Missing)"

text \<open>The distinct items of a list, each at the place of its first occurrence.\<close>

fun first_seen :: "'a list \<Rightarrow> 'a list" where
  "first_seen [] = []"
| "first_seen (x # xs) = x # removeAll x (first_seen xs)"

text \<open>
  \<open>pd.concat(frames, ignore_index=True)\<close>: no frame at all is a \<open>ValueError\<close>. The
  columns are the union of the frames' columns in order of first appearance, a frame
  without a column contributing missing cells; the index is renumbered from 0.
\<close>

definition concat_frames :: "frame list \<Rightarrow> error + frame" where
  "concat_frames frames =
     (if frames = [] then Inl ValueError
      else Inr \<lparr> index = [0..<sum_list (map (\<lambda>df. length (index df)) frames)],
                 columns = map (\<lambda>c. (c, concat (map (\<lambda>df. column df c) frames)))
                               (first_seen (concat (map (\<lambda>df. map fst (columns df)) frames))) \<rparr>)"

text \<open>
  \<open>series.pop("data")\<close>: the value and the dictionary without the key. A list has a
  \<open>pop\<close> that wants an integer; the other values have none.
\<close>

fun pop_data :: "json \<Rightarrow> error + json \<times> dict" where
  "pop_data (JObj d) =
     (case map_of d ''data'' of
        None \<Rightarrow> Inl KeyError
      | Some v \<Rightarrow> Inr (v, filter (\<lambda>(k, v). k \<noteq> ''data'') d))"
| "pop_data (JArr xs) = Inl TypeError"
| "pop_data other = Inl AttributeError"

text \<open>
  \<^verbatim>\<open>
  def to_dataframe(self, include_metadata: bool = True) -> pd.DataFrame:
      records = asyncio.run(self.parse())
      data = []
      for series in records:
          df = pd.DataFrame(series.pop("data"), columns=["period", "value"])
          if include_metadata:
              df = df.assign(**series)
          data.append(df)
      return pd.concat(data, ignore_index=True)
  \<close>
  \<open>frames_loop\<close> is the loop over the records, \<open>tabulate\<close> the function body after
  the records have been collected.
\<close>

fun frames_loop :: "bool \<Rightarrow> json list \<Rightarrow> frame list \<Rightarrow> error + frame list" where
  "frames_loop include_metadata [] data = Inr data"
| "frames_loop include_metadata (series # records) data =
     (case pop_data series of
        Inl e \<Rightarrow> Inl e
      | Inr (d, rest) \<Rightarrow>
          (case DataFrame d of
             Inl e \<Rightarrow> Inl e
           | Inr df \<Rightarrow>
               (case (if include_metadata then assign rest df else Inr df) of
                  Inl e \<Rightarrow> Inl e
                | Inr df' \<Rightarrow> frames_loop include_metadata records (data @ [df']))))"

definition tabulate :: "bool \<Rightarrow> json list \<Rightarrow> error + frame" where
  "tabulate include_metadata records =
     (case frames_loop include_metadata records [] of
        Inl e \<Rightarrow> Inl e
      | Inr data \<Rightarrow> concat_frames data)"

definition to_dataframe :: "server \<Rightarrow> query \<Rightarrow> bool \<Rightarrow> request list
    \<Rightarrow> (error + frame) \<times> query \<times> request list" where
  "to_dataframe srv self include_metadata sent =
     (case parse srv self sent of
        (Inl e, self', sent') \<Rightarrow> (Inl e, self', sent')
      | (Inr records, self', sent') \<Rightarrow> (tabulate include_metadata records, self', sent'))"

section \<open>Notions of the specification\<close>

text \<open>
  The request the submission loop sends for one batch, and the outcomes the service gives
  to the requests for a sequence of batches sent in order from a given log.
\<close>

definition batch_request :: "query \<Rightarrow> string \<Rightarrow> request" where
  "batch_request self b =
     \<lparr> verb = POST, target = url self, query_params = params self,
       body = Some [(''series_id'', JStr b)] \<rparr>"

fun replies :: "server \<Rightarrow> query \<Rightarrow> string list \<Rightarrow> request list \<Rightarrow> (error + json) list" where
  "replies srv self [] sent = []"
| "replies srv self (b # bs) sent =
     srv sent (batch_request self b) # replies srv self bs (sent @ [batch_request self b])"

text \<open>
  A per-batch response mapping is a dictionary whose \<open>series\<close> field, when present, is a
  list; its series list is that list, or empty when the field is absent.
\<close>

fun response_mapping :: "error + json \<Rightarrow> bool" where
  "response_mapping (Inr (JObj g)) =
     (case map_of g ''series'' of
        None \<Rightarrow> True
      | Some (JArr xs) \<Rightarrow> True
      | Some other \<Rightarrow> False)"
| "response_mapping other = False"

fun series_list :: "error + json \<Rightarrow> json list" where
  "series_list (Inr (JObj g)) =
     (case map_of g ''series'' of
        Some (JArr xs) \<Rightarrow> xs
      | other \<Rightarrow> [])"
| "series_list other = []"

text \<open>A stub service that answers every request with the same document.\<close>

definition constant_service :: "json \<Rightarrow> server" where
  "constant_service document sent rq = Inr document"









section \<open>Batching: partition, bound, count and round trip\<close>

text \<open>
  The arithmetic of one round of \<open>yield_chunks\<close>: taking one item and up to \<open>n - 1\<close>
  more adds one to the number of chunks still to come.
\<close>

lemma chunk_count:
  assumes "1 \<le> n"
  shows "Suc ((length (drop (nat (n - 1)) it) + nat n - 1) div nat n) = (Suc (length it) + nat n - 1) div nat n"
proof -
  obtain m where m: "nat n = Suc m" using assms by (cases "nat n") auto
  then have m1: "nat (n - 1) = m" using assms by auto
  have r: "Suc (length it) + Suc m - 1 = length it + Suc m" by simp
  have "(Suc (length it) + Suc m - 1) div Suc m = (length it + Suc m) div Suc m"
    by (simp only: r)
  also have "\<dots> = length it div Suc m + 1"
    by (rule div_add_self2) simp
  also have "\<dots> = Suc (length it div Suc m)"
    by simp
  finally have rhs: "(Suc (length it) + Suc m - 1) div Suc m = Suc (length it div Suc m)" .
  show ?thesis
  proof (cases "m \<le> length it")
    case True
    then have "length (drop m it) + Suc m - 1 = length it" by simp
    then show ?thesis unfolding m m1 rhs by simp
  next
    case False
    then have "length (drop m it) + Suc m - 1 = m" by simp
    moreover have "length it div Suc m = 0" using False by simp
    ultimately show ?thesis unfolding m m1 rhs by simp
  qed
qed

lemma yield_chunks_ok:
  assumes "1 \<le> n"
  shows "\<exists>cs. yield_chunks xs n = Inr cs \<and> concat cs = xs
          \<and> (\<forall>c\<in>set cs. c \<noteq> [] \<and> int (length c) \<le> n)
          \<and> length cs = (length xs + nat n - 1) div nat n"
  using assms
proof (induction xs n rule: yield_chunks.induct)
  case (1 n)
  then show ?case by simp
next
  case (2 edge iterator n)
  have n: "\<not> n - 1 < 0" using 2(2) by simp
  from 2(1)[OF n 2(2)] obtain cs where cs: "yield_chunks (drop (nat (n - 1)) iterator) n = Inr cs"
     "concat cs = drop (nat (n - 1)) iterator"
     "\<forall>c\<in>set cs. c \<noteq> [] \<and> int (length c) \<le> n"
     "length cs = (length (drop (nat (n - 1)) iterator) + nat n - 1) div nat n"
    by blast
  have y: "yield_chunks (edge # iterator) n = Inr ((edge # take (nat (n - 1)) iterator) # cs)"
    using n cs(1) by simp
  have len: "int (length (edge # take (nat (n - 1)) iterator)) \<le> n" using 2(2) by simp
  have cnt: "length ((edge # take (nat (n - 1)) iterator) # cs) = (length (edge # iterator) + nat n - 1) div nat n"
    using cs(4) chunk_count[OF 2(2), of iterator] by simp
  have cc: "concat ((edge # take (nat (n - 1)) iterator) # cs) = edge # iterator"
    using cs(2) by simp
  show ?case unfolding y using cs(3) len cnt cc by (intro exI[of _ "(edge # take (nat (n - 1)) iterator) # cs"]) simp
qed

lemma split_sep_plain: "c \<notin> set x \<Longrightarrow> split_sep c x = [x]"
  by (induction x) auto

lemma split_sep_append: "c \<notin> set x \<Longrightarrow> split_sep c (x @ c # r) = x # split_sep c r"
  by (induction x) auto

lemma split_sep_join:
  "xs \<noteq> [] \<Longrightarrow> \<forall>x\<in>set xs. c \<notin> set x \<Longrightarrow> split_sep c (join [c] xs) = xs"
  by (induction "[c]" xs rule: join.induct) (auto simp: split_sep_plain split_sep_append)

lemma split_sep_nonempty: "split_sep c s \<noteq> []"
  by (induction s) auto

lemma split_sep_free: "w \<in> set (split_sep c s) \<Longrightarrow> c \<notin> set w"
proof (induction s arbitrary: w)
  case Nil
  then show ?case by simp
next
  case (Cons x xs)
  obtain h t where ht: "split_sep c xs = h # t"
    using split_sep_nonempty[of c xs] by (cases "split_sep c xs") auto
  show ?case
  proof (cases "x = c")
    case True
    with Cons show ?thesis by auto
  next
    case False
    with Cons.prems ht have "w = x # h \<or> w \<in> set t" by simp
    moreover have "c \<notin> set h" using Cons.IH[of h] ht by simp
    moreover have "w \<in> set t \<Longrightarrow> c \<notin> set w" using Cons.IH[of w] ht by simp
    ultimately show ?thesis using False by auto
  qed
qed

lemma unbatch_free: "w \<in> set (unbatch bs) \<Longrightarrow> CHR '';'' \<notin> set w"
  unfolding unbatch_def using split_sep_free by auto

lemma unbatch_join:
  assumes "\<forall>c\<in>set cs. c \<noteq> []" and "\<forall>x\<in>set (concat cs). CHR '';'' \<notin> set x"
  shows "unbatch (map (join '';'') cs) = concat cs"
  using assms
proof (induction cs)
  case Nil
  then show ?case by (simp add: unbatch_def)
next
  case (Cons c cs)
  have "split_sep CHR '';'' (join '';'' c) = c"
    using Cons.prems by (intro split_sep_join) auto
  moreover have "unbatch (map (join '';'') cs) = concat cs"
    using Cons by auto
  ultimately show ?case by (simp add: unbatch_def)
qed

text \<open>
  Claim C1, as the code has it. For every sequence of identifier strings the batching step
  succeeds and partitions the identifiers, in input order, into chunks of at least one and
  at most 100 identifiers, each chunk joined by \<open>;\<close> into one batch string. The number of
  batches is the number of identifiers divided by 100 and rounded up: one batch for 1 to
  100 identifiers, two for 101, three for 250, and none for the empty input. When no
  identifier contains the separator, splitting every batch on \<open>;\<close> and concatenating gives
  back the input.
\<close>

theorem batches_partition:
  "\<exists>chunks. yield_chunks ids 100 = Inr chunks
     \<and> batches ids = Inr (map (join '';'') chunks)
     \<and> concat chunks = ids
     \<and> (\<forall>c\<in>set chunks. 1 \<le> length c \<and> length c \<le> 100)
     \<and> length chunks = (length ids + 99) div 100
     \<and> ((\<forall>i\<in>set ids. CHR '';'' \<notin> set i)
          \<longrightarrow> unbatch (map (join '';'') chunks) = ids)"
proof -
  obtain cs where cs: "yield_chunks ids 100 = Inr cs" "concat cs = ids"
    "\<forall>c\<in>set cs. c \<noteq> [] \<and> int (length c) \<le> 100"
    "length cs = (length ids + nat 100 - 1) div nat 100"
    using yield_chunks_ok[of 100 ids] by auto
  have b: "batches ids = Inr (map (join '';'') cs)"
    by (simp add: batches_def cs(1))
  have sz: "\<forall>c\<in>set cs. 1 \<le> length c \<and> length c \<le> 100"
  proof
    fix c assume "c \<in> set cs"
    with cs(3) have "c \<noteq> []" "int (length c) \<le> 100" by auto
    then show "1 \<le> length c \<and> length c \<le> 100" by (cases c) auto
  qed
  have n: "length cs = (length ids + 99) div 100" using cs(4) by simp
  have rt: "(\<forall>i\<in>set ids. CHR '';'' \<notin> set i)
          \<longrightarrow> unbatch (map (join '';'') cs) = ids"
    using unbatch_join[of cs] cs(2,3) by auto
  show ?thesis using cs(1,2) b sz n rt by blast
qed

text \<open>The theorem at three identifiers, none containing the separator.\<close>

theorem batches_partition_witness:
  "batches [''A'', ''B'', ''C''] = Inr [''A;B;C''] \<and> unbatch [''A;B;C''] = [''A'', ''B'', ''C'']
     \<and> (length [''A'', ''B'', ''C''] + 99) div 100 = (1::nat)"
  using batches_partition [of "[''A'', ''B'', ''C'']"]
  by (simp add: batches_def unbatch_def)

text \<open>
  Claim C1 as stated fails twice. The empty input has fewer than 100 identifiers and gives
  no batch, not one. And an input of exactly 100 identifiers, one of which contains
  \<open>;\<close>, is not reproduced by splitting its batches.
\<close>

theorem batches_counterexample:
  "batches [] = Inr []
   \<and> length (replicate 99 ''a'' @ [''b;c'']) = 100
   \<and> map_sum id unbatch (batches (replicate 99 ''a'' @ [''b;c''])) \<noteq> Inr (replicate 99 ''a'' @ [''b;c''])"
proof -
  let ?ids = "replicate 99 ''a'' @ [''b;c'']"
  obtain cs where cs: "yield_chunks ?ids 100 = Inr cs"
    using yield_chunks_ok[of 100 ?ids] by auto
  then have b: "batches ?ids = Inr (map (join '';'') cs)" by (simp add: batches_def)
  have "''b;c'' \<in> set ?ids" by simp
  moreover have "''b;c'' \<notin> set (unbatch (map (join '';'') cs))"
    using unbatch_free[of "''b;c''"] by auto
  ultimately have "unbatch (map (join '';'') cs) \<noteq> ?ids" by metis
  then show ?thesis unfolding b by (simp add: batches_def)
qed

text \<open>The count of batches at the sizes the specification names.\<close>

lemma batches_count_examples:
  assumes "batches ids = Inr bs"
  shows "(ids = [] \<longrightarrow> bs = [])
       \<and> (0 < length ids \<and> length ids \<le> 100 \<longrightarrow> length bs = 1)
       \<and> (length ids = 101 \<longrightarrow> length bs = 2)
       \<and> (length ids = 250 \<longrightarrow> length bs = 3)"
proof -
  obtain cs where cs: "yield_chunks ids 100 = Inr cs"
    "length cs = (length ids + nat 100 - 1) div nat 100"
    using yield_chunks_ok[of 100 ids] by auto
  have "bs = map (join '';'') cs" using assms cs(1) by (simp add: batches_def)
  then have n: "length bs = (length ids + 99) div 100" using cs(2) by simp
  have one: "(k + 99) div 100 = 1" if "0 < k" "k \<le> 100" for k :: nat
    using that by (intro div_nat_eqI) simp_all
  have a: "ids = [] \<longrightarrow> bs = []" using n by auto
  have b: "0 < length ids \<and> length ids \<le> 100 \<longrightarrow> length bs = 1" using n one[of "length ids"] by simp
  have c: "length ids = 101 \<longrightarrow> length bs = 2" using n by simp
  have d: "length ids = 250 \<longrightarrow> length bs = 3" using n by simp
  show ?thesis using a b c d by (intro conjI)
qed

section \<open>The empty input\<close>

text \<open>
  Claim C3, as the code has it. For the empty input the batching step produces no batch at
  all: \<open>yield_chunks\<close> ends at once on an exhausted iterator. The submission loop over
  the empty batch sequence sends nothing: it returns the empty list of records and leaves
  the request log as it was.
\<close>

theorem empty_input_no_batch:
  "batches [] = Inr []
   \<and> post_init self [] = Inr (self\<lparr>series_ids := Some []\<rparr>)
   \<and> parse_loop srv self [] [] sent = (Inr [], self, sent)
   \<and> to_dict srv (self\<lparr>series_ids := Some []\<rparr>) sent = (Inr [], self\<lparr>series_ids := Some []\<rparr>, sent)"
  by (simp add: batches_def post_init_def to_dict_def parse_def)

text \<open>
  Claim C3 as stated says the empty input gives exactly one batch, the empty string. It gives
  none.
\<close>

theorem empty_input_counterexample:
  "batches [] \<noteq> Inr ['''']"
  by (simp add: batches_def)

section \<open>Credentials\<close>

lemma init_Some: "k \<noteq> [] \<Longrightarrow> init s (Some k) =
   Inr \<lparr> apikey = k, params = [(''api_key'', JStr k), (''out'', JStr ''json'')],
         url = ''https://api.eia.gov/series/'', series_ids = None \<rparr>"
  by (simp add: init_def configure_def py_or_def urljoin_def ROOT_def endpoint_def)

lemma init_fallback: "\<not> truthy key \<Longrightarrow> init s key =
   (case s of
      None \<Rightarrow> Inl AssertionError
    | Some k \<Rightarrow> if k = [] then Inl AssertionError
        else Inr \<lparr> apikey = k, params = [(''api_key'', JStr k), (''out'', JStr ''json'')],
                   url = ''https://api.eia.gov/series/'', series_ids = None \<rparr>)"
  by (cases s) (simp_all add: init_def configure_def py_or_def urljoin_def ROOT_def endpoint_def)

text \<open>
  Claim C5. Construction with no credential argument fails with the assertion error when
  the process-wide value is absent (or empty). Construction with a non-empty credential
  argument succeeds and stores it, whatever the process-wide value; construction without
  an argument succeeds and stores a non-empty process-wide value. Construction takes no
  service and no request log: it cannot touch the network.
\<close>

theorem credential_required:
  "(\<not> truthy s \<longrightarrow> init s None = Inl AssertionError \<and> Series s [] = Inl AssertionError)
   \<and> (k \<noteq> [] \<longrightarrow> (\<exists>q. init s (Some k) = Inr q \<and> apikey q = k
                          \<and> map_of (params q) ''api_key'' = Some (JStr k)))
   \<and> (k \<noteq> [] \<longrightarrow> (\<exists>q. init (Some k) None = Inr q \<and> apikey q = k
                          \<and> map_of (params q) ''api_key'' = Some (JStr k)))"
proof -
  have a: "\<not> truthy s \<Longrightarrow> init s None = Inl AssertionError"
    using init_fallback[of None s] by (cases s) auto
  have b: "k \<noteq> [] \<Longrightarrow> \<exists>q. init s (Some k) = Inr q \<and> apikey q = k
                          \<and> map_of (params q) ''api_key'' = Some (JStr k)"
    by (simp add: init_Some)
  have c: "k \<noteq> [] \<Longrightarrow> \<exists>q. init (Some k) None = Inr q \<and> apikey q = k
                          \<and> map_of (params q) ''api_key'' = Some (JStr k)"
    using init_fallback[of None "Some k"] by simp
  show ?thesis using a b c by simp
qed

text \<open>The theorem with no process-wide value and the credential \<open>KEY\<close>.\<close>

theorem credential_required_witness:
  "\<not> truthy None \<and> ''KEY'' \<noteq> []
   \<and> init None None = Inl AssertionError
   \<and> map_sum id apikey (init None (Some ''KEY'')) = Inr ''KEY''
   \<and> map_sum id apikey (init (Some ''KEY'') None) = Inr ''KEY''"
  using credential_required [of None "''KEY''"] by auto

text \<open>
  Claim C10. An empty credential argument is an omitted one: construction gives the same
  outcome as with no argument, which is the assertion error when the process-wide value is
  absent or empty and an instance holding the process-wide value otherwise. The stored
  credential is never the empty string.
\<close>

theorem empty_credential_is_omitted:
  "init s (Some []) = init s None
   \<and> init s (Some []) =
       (case s of
          None \<Rightarrow> Inl AssertionError
        | Some k \<Rightarrow>
            if k = [] then Inl AssertionError
            else Inr \<lparr> apikey = k, params = [(''api_key'', JStr k), (''out'', JStr ''json'')],
                       url = ''https://api.eia.gov/series/'', series_ids = None \<rparr>)
   \<and> (\<forall>q. init s (Some []) = Inr q \<longrightarrow> apikey q \<noteq> [] \<and> s = Some (apikey q))"
proof -
  have a: "init s (Some []) = init s None"
    using init_fallback[of "Some []" s] init_fallback[of None s] by simp
  have b: "init s (Some []) =
       (case s of
          None \<Rightarrow> Inl AssertionError
        | Some k \<Rightarrow>
            if k = [] then Inl AssertionError
            else Inr \<lparr> apikey = k, params = [(''api_key'', JStr k), (''out'', JStr ''json'')],
                       url = ''https://api.eia.gov/series/'', series_ids = None \<rparr>)"
    using init_fallback[of "Some []" s] by simp
  have c: "\<forall>q. init s (Some []) = Inr q \<longrightarrow> apikey q \<noteq> [] \<and> s = Some (apikey q)"
    unfolding b by (cases s) auto
  show ?thesis using a b c by blast
qed

text \<open>The theorem with the process-wide value \<open>ENV\<close>.\<close>

theorem empty_credential_is_omitted_witness:
  "init (Some ''ENV'') (Some []) = init (Some ''ENV'') None
   \<and> map_sum id apikey (init (Some ''ENV'') (Some [])) = Inr ''ENV''"
proof -
  have a: "init (Some ''ENV'') (Some []) = init (Some ''ENV'') None"
    using empty_credential_is_omitted [of "Some ''ENV''"] by blast
  have "init (Some ''ENV'') (Some []) =
          Inr \<lparr> apikey = ''ENV'', params = [(''api_key'', JStr ''ENV''), (''out'', JStr ''json'')],
                url = ''https://api.eia.gov/series/'', series_ids = None \<rparr>"
    using conjunct1 [OF conjunct2 [OF empty_credential_is_omitted [of "Some ''ENV''"]]] by simp
  then have c: "map_sum id apikey (init (Some ''ENV'') (Some [])) = Inr ''ENV''"
    by simp
  show ?thesis using a c by blast
qed

section \<open>The verbs and the stored defaults\<close>

lemma map_of_dict_set: "map_of (dict_set k v d) = (map_of d)(k \<mapsto> v)"
  by (induction d) (auto simp: fun_eq_iff)

lemma map_of_fold_dict_set:
  "map_of (fold (\<lambda>(k, v) d. dict_set k v d) xs d) k =
     (case map_of (rev xs) k of Some v \<Rightarrow> Some v | None \<Rightarrow> map_of d k)"
proof (induction xs arbitrary: d)
  case Nil
  then show ?case by simp
next
  case (Cons x xs)
  obtain a b where x: "x = (a, b)" by (cases x)
  show ?case
    unfolding x using Cons[of "dict_set a b d"]
    by (simp add: map_of_dict_set map_add_def split: option.splits)
qed

lemma map_of_rev_distinct: "distinct (map fst xs) \<Longrightarrow> map_of (rev xs) k = map_of xs k"
proof (induction xs)
  case Nil
  then show ?case by simp
next
  case (Cons x xs)
  obtain a b where x: "x = (a, b)" by (cases x)
  have "a \<notin> fst ` set xs" using Cons.prems x by simp
  then have "map_of xs a = None" by (simp add: map_of_eq_None_iff)
  then show ?case using Cons x by (simp add: map_add_def split: option.splits)
qed

lemma map_of_dict_merge:
  assumes "distinct (map fst a)" "distinct (map fst b)"
  shows "map_of (dict_merge a b) k =
     (case map_of b k of Some v \<Rightarrow> Some v | None \<Rightarrow> map_of a k)"
proof -
  have "map_of (dict_merge a b) k =
      (case map_of (rev b) k of Some v \<Rightarrow> Some v | None \<Rightarrow> map_of (rev a) k)"
    unfolding dict_merge_def map_of_fold_dict_set
    by (simp add: map_add_def split: option.splits)
  then show ?thesis
    using assms by (simp add: map_of_rev_distinct split: option.splits)
qed

text \<open>
  The keys of a merge: storing under an existing key keeps the key's place, a new key goes
  to the end.
\<close>

lemma keys_dict_set:
  "map fst (dict_set k v d) = (if k \<in> set (map fst d) then map fst d else map fst d @ [k])"
proof (induction d)
  case Nil
  then show ?case by simp
next
  case (Cons a d)
  obtain k' v' where a: "a = (k', v')" by (cases a)
  show ?case unfolding a using Cons by (cases "k' = k") auto
qed

lemma keys_fold_dict_set:
  "distinct (map fst xs) \<Longrightarrow>
   map fst (fold (\<lambda>(k, v) d. dict_set k v d) xs d) =
     map fst d @ filter (\<lambda>k. k \<notin> set (map fst d)) (map fst xs)"
proof (induction xs arbitrary: d)
  case Nil
  then show ?case by simp
next
  case (Cons x xs)
  obtain k v where x: "x = (k, v)" by (cases x)
  have kn: "k \<notin> set (map fst xs)" and dx: "distinct (map fst xs)"
    using Cons.prems x by simp_all
  have ih: "map fst (fold (\<lambda>(k, v) d. dict_set k v d) xs (dict_set k v d)) =
     map fst (dict_set k v d) @ filter (\<lambda>j. j \<notin> set (map fst (dict_set k v d))) (map fst xs)"
    by (rule Cons.IH[OF dx])
  show ?case
  proof (cases "k \<in> set (map fst d)")
    case True
    then have "map fst (dict_set k v d) = map fst d" by (simp add: keys_dict_set)
    then show ?thesis using ih True x by simp
  next
    case False
    then have k1: "map fst (dict_set k v d) = map fst d @ [k]" by (simp add: keys_dict_set)
    have "filter (\<lambda>j. j \<notin> set (map fst d @ [k])) (map fst xs)
            = filter (\<lambda>j. j \<notin> set (map fst d)) (map fst xs)"
      using kn by (intro filter_cong) auto
    then show ?thesis using ih False x unfolding k1 by simp
  qed
qed

lemma keys_dict_merge:
  assumes "distinct (map fst a)" and "distinct (map fst b)"
  shows "map fst (dict_merge a b) = map fst a @ filter (\<lambda>k. k \<notin> set (map fst a)) (map fst b)"
proof -
  have "map fst (fold (\<lambda>(k, v) d. dict_set k v d) a []) = map fst a"
    using keys_fold_dict_set[OF assms(1), of "[]"] by simp
  then show ?thesis
    unfolding dict_merge_def fold_append comp_def
    using keys_fold_dict_set[OF assms(2), of "fold (\<lambda>(k, v) d. dict_set k v d) a []"]
    by simp
qed

lemma distinct_dict_merge:
  assumes "distinct (map fst a)" and "distinct (map fst b)"
  shows "distinct (map fst (dict_merge a b))"
  unfolding keys_dict_merge[OF assms] using assms by auto

text \<open>
  Claim C9. A fetch sends one GET request to the instance's URL whose parameters are the
  stored defaults overridden by the caller's: the keys are the defaults' keys in their
  order, then the caller's new keys in theirs, each key once, and looking a key up gives
  the caller's value when the caller has the key and the default otherwise. A submit sends
  one POST request with exactly the stored defaults as parameters and the caller's data as
  body. Both return the instance as it was. The two dictionaries have distinct keys, as
  every Python dictionary has.
\<close>

theorem verbs_keep_defaults:
  assumes "distinct (map fst (params self))" and "distinct (map fst data)"
  shows "(\<exists>rq. get srv self data sent = (srv sent rq, self, sent @ [rq])
            \<and> verb rq = GET \<and> target rq = url self \<and> body rq = None
            \<and> map fst (query_params rq) =
                 map fst (params self)
                 @ filter (\<lambda>k. k \<notin> set (map fst (params self))) (map fst data)
            \<and> distinct (map fst (query_params rq))
            \<and> (\<forall>k. map_of (query_params rq) k =
                  (case map_of data k of Some v \<Rightarrow> Some v | None \<Rightarrow> map_of (params self) k)))
       \<and> post srv self data sent =
           (srv sent \<lparr> verb = POST, target = url self, query_params = params self,
                       body = Some data \<rparr>,
            self,
            sent @ [\<lparr> verb = POST, target = url self, query_params = params self,
                      body = Some data \<rparr>])"
proof -
  let ?rq = "\<lparr> verb = GET, target = url self,
                query_params = dict_merge (params self) data, body = None \<rparr>"
  have g: "get srv self data sent = (srv sent ?rq, self, sent @ [?rq])"
    by (simp add: get_def Let_def)
  have ks: "map fst (query_params ?rq) =
                 map fst (params self)
                 @ filter (\<lambda>k. k \<notin> set (map fst (params self))) (map fst data)"
    using keys_dict_merge[OF assms] by simp
  have ds: "distinct (map fst (query_params ?rq))"
    using distinct_dict_merge[OF assms] by simp
  have m: "\<forall>k. map_of (query_params ?rq) k =
                  (case map_of data k of Some v \<Rightarrow> Some v | None \<Rightarrow> map_of (params self) k)"
    using map_of_dict_merge[OF assms] by simp
  have p: "post srv self data sent =
           (srv sent \<lparr> verb = POST, target = url self, query_params = params self,
                       body = Some data \<rparr>,
            self,
            sent @ [\<lparr> verb = POST, target = url self, query_params = params self,
                      body = Some data \<rparr>])"
    by (simp add: post_def Let_def)
  have v: "verb ?rq = GET" and t: "target ?rq = url self" and b: "body ?rq = None"
    by simp_all
  show ?thesis
    by (intro conjI exI[of _ ?rq] g v t b ks ds m p)
qed

text \<open>
  The theorem on a fetch that overrides \<open>out\<close> and adds a key, and on a submit of one
  batch: the merged parameters are \<open>api_key\<close>, the caller's \<open>out\<close>, and the new key.
\<close>

theorem verbs_keep_defaults_witness:
  "get (constant_service JNull)
      \<lparr> apikey = ''K'', params = [(''api_key'', JStr ''K''), (''out'', JStr ''json'')],
        url = ''https://api.eia.gov/series/'', series_ids = None \<rparr>
      [(''out'', JStr ''xml''), (''category_id'', JStr ''7'')] []
     = (Inr JNull,
        \<lparr> apikey = ''K'', params = [(''api_key'', JStr ''K''), (''out'', JStr ''json'')],
          url = ''https://api.eia.gov/series/'', series_ids = None \<rparr>,
        [\<lparr> verb = GET, target = ''https://api.eia.gov/series/'',
           query_params = [(''api_key'', JStr ''K''), (''out'', JStr ''xml''),
                           (''category_id'', JStr ''7'')],
           body = None \<rparr>])
   \<and> post (constant_service JNull)
          \<lparr> apikey = ''K'', params = [(''api_key'', JStr ''K''), (''out'', JStr ''json'')],
            url = ''https://api.eia.gov/series/'', series_ids = None \<rparr>
          [(''series_id'', JStr ''A;B'')] []
       = (Inr JNull,
          \<lparr> apikey = ''K'', params = [(''api_key'', JStr ''K''), (''out'', JStr ''json'')],
            url = ''https://api.eia.gov/series/'', series_ids = None \<rparr>,
          [\<lparr> verb = POST, target = ''https://api.eia.gov/series/'',
             query_params = [(''api_key'', JStr ''K''), (''out'', JStr ''json'')],
             body = Some [(''series_id'', JStr ''A;B'')] \<rparr>])"
proof -
  let ?self = "\<lparr> apikey = ''K'', params = [(''api_key'', JStr ''K''), (''out'', JStr ''json'')],
                  url = ''https://api.eia.gov/series/'', series_ids = None \<rparr>"
  let ?data = "[(''out'', JStr ''xml''), (''category_id'', JStr ''7'')]"
  have d1: "distinct (map fst (params ?self))" by simp
  have d2: "distinct (map fst ?data)" by simp
  have d3: "distinct (map fst [(''series_id'', JStr ''A;B'')])" by simp
  from verbs_keep_defaults [OF d1 d2, of "constant_service JNull" "[]"]
  obtain rq where rq:
    "get (constant_service JNull) ?self ?data [] = (constant_service JNull [] rq, ?self, [] @ [rq])"
    "verb rq = GET" "target rq = url ?self" "body rq = None"
    "map fst (query_params rq) =
       map fst (params ?self) @ filter (\<lambda>k. k \<notin> set (map fst (params ?self))) (map fst ?data)"
    "\<forall>k. map_of (query_params rq) k =
        (case map_of ?data k of Some v \<Rightarrow> Some v | None \<Rightarrow> map_of (params ?self) k)"
    by (elim conjE exE) (rule that)
  have keys: "map fst (query_params rq) = [''api_key'', ''out'', ''category_id'']"
    using rq(5) by simp
  then obtain v1 v2 v3 where qp:
    "query_params rq = [(''api_key'', v1), (''out'', v2), (''category_id'', v3)]"
    by (auto simp: map_eq_Cons_conv)
  have "v1 = JStr ''K''" using rq(6)[rule_format, of "''api_key''"] unfolding qp by simp
  moreover have "v2 = JStr ''xml''" using rq(6)[rule_format, of "''out''"] unfolding qp by simp
  moreover have "v3 = JStr ''7''" using rq(6)[rule_format, of "''category_id''"] unfolding qp by simp
  ultimately have qp': "query_params rq =
      [(''api_key'', JStr ''K''), (''out'', JStr ''xml''), (''category_id'', JStr ''7'')]"
    using qp by simp
  have rq_eq: "rq = \<lparr> verb = GET, target = ''https://api.eia.gov/series/'',
           query_params = [(''api_key'', JStr ''K''), (''out'', JStr ''xml''),
                           (''category_id'', JStr ''7'')],
           body = None \<rparr>"
    using rq(2,3,4) qp' by (cases rq) simp
  have a: "get (constant_service JNull) ?self ?data [] = (Inr JNull, ?self, [rq])"
    using rq(1) by (simp add: constant_service_def)
  have b: "post (constant_service JNull) ?self [(''series_id'', JStr ''A;B'')] []
       = (Inr JNull, ?self,
          [\<lparr> verb = POST, target = ''https://api.eia.gov/series/'',
             query_params = [(''api_key'', JStr ''K''), (''out'', JStr ''json'')],
             body = Some [(''series_id'', JStr ''A;B'')] \<rparr>])"
    using verbs_keep_defaults [OF d1 d3, of "constant_service JNull" "[]"]
    by (simp add: constant_service_def)
  show ?thesis using a b unfolding rq_eq by simp
qed

section \<open>Collection\<close>

text \<open>
  Claim C6. When the response to a batch is a dictionary without a \<open>series\<close> field, the
  batch contributes no record and raises nothing: the loop goes on with the remaining
  batches, its output unchanged and the request logged.
\<close>

theorem missing_series_contributes_nothing:
  assumes "srv sent (batch_request self b) = Inr (JObj g)" and "map_of g ''series'' = None"
  shows "group_series (JObj g) = Inr []
       \<and> parse_loop srv self (b # bs) out sent =
           parse_loop srv self bs out (sent @ [batch_request self b])"
  using assms by (simp add: post_def batch_request_def Let_def)

text \<open>The theorem on one batch answered by a dictionary that has only request metadata.\<close>

theorem missing_series_contributes_nothing_witness:
  "parse_loop (constant_service (JObj [(''request'', JStr ''series'')]))
     \<lparr> apikey = ''K'', params = [(''api_key'', JStr ''K''), (''out'', JStr ''json'')],
       url = ''https://api.eia.gov/series/'', series_ids = Some [''A''] \<rparr>
     [''A''] [] []
   = (Inr [],
      \<lparr> apikey = ''K'', params = [(''api_key'', JStr ''K''), (''out'', JStr ''json'')],
        url = ''https://api.eia.gov/series/'', series_ids = Some [''A''] \<rparr>,
      [\<lparr> verb = POST, target = ''https://api.eia.gov/series/'',
         query_params = [(''api_key'', JStr ''K''), (''out'', JStr ''json'')],
         body = Some [(''series_id'', JStr ''A'')] \<rparr>])"
proof -
  let ?srv = "constant_service (JObj [(''request'', JStr ''series'')])"
  let ?self = "\<lparr> apikey = ''K'', params = [(''api_key'', JStr ''K''), (''out'', JStr ''json'')],
       url = ''https://api.eia.gov/series/'', series_ids = Some [''A''] \<rparr>"
  have a: "?srv [] (batch_request ?self ''A'') = Inr (JObj [(''request'', JStr ''series'')])"
    by (simp add: constant_service_def)
  have b: "map_of [(''request'', JStr ''series'')] ''series'' = None" by simp
  show ?thesis
    using missing_series_contributes_nothing
      [where srv = "?srv" and sent = "[]" and self = "?self" and b = "''A''"
         and g = "[(''request'', JStr ''series'')]" and bs = "[]" and out = "[]", OF a b]
    by (simp add: batch_request_def)
qed

lemma parse_loop_flattens:
  "list_all response_mapping (replies srv self bs sent) \<Longrightarrow>
   parse_loop srv self bs out sent =
     (Inr (out @ concat (map series_list (replies srv self bs sent))), self,
      sent @ map (batch_request self) bs)"
proof (induction bs arbitrary: out sent)
  case Nil
  then show ?case by simp
next
  case (Cons b bs)
  from Cons.prems obtain g where g: "srv sent (batch_request self b) = Inr (JObj g)"
    by (cases "srv sent (batch_request self b)" rule: response_mapping.cases) auto
  from Cons.prems g have s: "group_series (JObj g) = Inr (series_list (Inr (JObj g)))"
    by (auto split: option.splits json.splits)
  from Cons.prems have r: "list_all response_mapping (replies srv self bs (sent @ [batch_request self b]))"
    by simp
  have p: "post srv self [(''series_id'', JStr b)] sent =
             (Inr (JObj g), self, sent @ [batch_request self b])"
    using g by (simp add: post_def batch_request_def Let_def)
  show ?case
    using Cons.IH[OF r] by (simp add: p s g del: group_series.simps series_list.simps)
qed

text \<open>
  Claim C7. When every response is a per-batch response mapping, collection returns the
  series lists of the responses concatenated in batch order, each in its own order, and
  \<open>to_dict\<close> returns the same. The result mentions the responses only through their
  series lists, so every other field is dropped. One request per batch is logged.
\<close>

theorem collection_flattens:
  assumes "series_ids self = Some bs"
    and "list_all response_mapping (replies srv self bs sent)"
  shows "parse srv self sent =
           (Inr (concat (map series_list (replies srv self bs sent))), self,
            sent @ map (batch_request self) bs)
       \<and> to_dict srv self sent = parse srv self sent"
  using assms parse_loop_flattens[of srv self bs sent "[]"]
  by (simp add: parse_def to_dict_def)

text \<open>The theorem on two batches, each answered with two entries and a metadata field.\<close>

theorem collection_flattens_witness:
  "fst (to_dict (constant_service (JObj [(''request'', JNull),
                                         (''series'', JArr [JStr ''s1'', JStr ''s2''])]))
     \<lparr> apikey = ''K'', params = [(''api_key'', JStr ''K''), (''out'', JStr ''json'')],
       url = ''https://api.eia.gov/series/'', series_ids = Some [''A'', ''B''] \<rparr> [])
   = Inr [JStr ''s1'', JStr ''s2'', JStr ''s1'', JStr ''s2'']"
proof -
  let ?srv = "constant_service (JObj [(''request'', JNull),
                                         (''series'', JArr [JStr ''s1'', JStr ''s2''])])"
  let ?self = "\<lparr> apikey = ''K'', params = [(''api_key'', JStr ''K''), (''out'', JStr ''json'')],
       url = ''https://api.eia.gov/series/'', series_ids = Some [''A'', ''B''] \<rparr>"
  have a: "series_ids ?self = Some [''A'', ''B'']" by simp
  have b: "list_all response_mapping (replies ?srv ?self [''A'', ''B''] [])"
    by (simp add: constant_service_def)
  show ?thesis
    using collection_flattens [OF a b]
    by (simp add: constant_service_def)
qed

section \<open>Construction and batching\<close>

text \<open>
  Claim C2 at the call of the class docstring, \<open>Series("A", "B")\<close>: the call raises
  \<open>TypeError\<close>. With one identifier the call succeeds, takes the identifier for the
  credential and leaves \<open>series_ids\<close> unassigned. No batch sequence is computed by
  construction.
\<close>

theorem construction_skips_batching:
  "Series (Some ''KEY'') [''A'', ''B''] = Inl TypeError
   \<and> map_sum id series_ids (Series (Some ''KEY'') [''A'']) = Inr None
   \<and> map_sum id apikey (Series (Some ''KEY'') [''A'']) = Inr ''A''"
  by (simp add: init_def configure_def py_or_def)

text \<open>
  No construction call assigns \<open>series_ids\<close>, and the collection loop returns the instance
  it was given.
\<close>

lemma Series_never_batches: "Series s args = Inr q \<Longrightarrow> series_ids q = None"
  by (cases "(s, args)" rule: Series.cases)
     (auto simp: init_def configure_def split: option.splits if_splits)

lemma parse_loop_keeps_instance: "parse_loop srv self bs out sent = (r, self', sent') \<Longrightarrow> self' = self"
proof (induction bs arbitrary: out sent)
  case Nil
  then show ?case by simp
next
  case (Cons b bs)
  then show ?case
    by (auto simp: post_def Let_def split: sum.splits)
qed

lemma operations_keep_instance:
  "parse srv self sent = (r, self', sent') \<Longrightarrow> self' = self"
  "to_dict srv self sent = (r, self', sent') \<Longrightarrow> self' = self"
  "to_dataframe srv self include_metadata sent = (t, self', sent') \<Longrightarrow> self' = self"
proof -
  show p: "self' = self" if "parse srv self sent = (r, self', sent')" for r self' sent'
    using that parse_loop_keeps_instance
    by (cases "series_ids self") (auto simp: parse_def)
  show "to_dict srv self sent = (r, self', sent') \<Longrightarrow> self' = self"
    using p by (simp add: to_dict_def)
  show "to_dataframe srv self include_metadata sent = (t, self', sent') \<Longrightarrow> self' = self"
  proof -
    assume a: "to_dataframe srv self include_metadata sent = (t, self', sent')"
    obtain r0 q0 s0 where q: "parse srv self sent = (r0, q0, s0)"
      by (cases "parse srv self sent") auto
    have "q0 = self" using p[OF q] .
    moreover have "self' = q0"
      using a q by (cases r0) (auto simp: to_dataframe_def)
    ultimately show "self' = self" by simp
  qed
qed

lemma replies_constant_service:
  "replies (constant_service d) self bs sent = map (\<lambda>b. Inr d) bs"
  by (induction bs arbitrary: sent) (simp_all add: constant_service_def)

text \<open>
  Claim C4 at a query with no identifiers. With the empty batch sequence that
  \<open>__post_init__\<close> computes, \<open>to_dict\<close> returns the empty list, and \<open>to_dataframe\<close>
  raises \<open>ValueError\<close>: \<open>pd.concat\<close> is given no frame. The same holds with one
  empty-string batch answered by an empty series list. Straight after construction, with
  \<open>series_ids\<close> unassigned, both operations raise \<open>AttributeError\<close>.
\<close>

theorem empty_query_table_raises:
  "to_dict srv (self\<lparr>series_ids := Some []\<rparr>) sent = (Inr [], self\<lparr>series_ids := Some []\<rparr>, sent)
   \<and> to_dataframe srv (self\<lparr>series_ids := Some []\<rparr>) include_metadata sent
       = (Inl ValueError, self\<lparr>series_ids := Some []\<rparr>, sent)
   \<and> fst (to_dataframe (constant_service (JObj [(''series'', JArr [])]))
            (self\<lparr>series_ids := Some ['''']\<rparr>) include_metadata sent) = Inl ValueError
   \<and> fst (to_dict srv (self\<lparr>series_ids := None\<rparr>) sent) = Inl AttributeError
   \<and> fst (to_dataframe srv (self\<lparr>series_ids := None\<rparr>) include_metadata sent) = Inl AttributeError"
  by (simp add: to_dict_def to_dataframe_def parse_def tabulate_def concat_frames_def
      post_def constant_service_def Let_def)

section \<open>The table\<close>





















lemma distinct_first_seen: "distinct (first_seen xs)"
  by (induction xs) (auto simp: distinct_removeAll)










end
